theory Spec2Isabelle
  imports Main "HOL-Library.Char_ord" "HOL-Library.List_Lexorder"
begin

section \<open>The command console of the trusted applet (package cmd, console.go)\<close>

text \<open>
  The console keeps a process-wide registry of commands (a Go map from the command's
  name to the command), matches each line read from a terminal against the registry,
  runs the matched command's handler and writes its result back. This theory embeds
  \<^verbatim>\<open>Add\<close>, \<open>msg\<close>, \<open>confirm\<close>, \<open>Help\<close>, \<open>Handle\<close> and \<open>Console\<close> of
  \<^verbatim>\<open>trusted_applet/cmd/console.go\<close>.
\<close>

subsection \<open>Errors\<close>

text \<open>
  A Go \<^verbatim>\<open>error\<close> is either the sentinel \<^verbatim>\<open>io.EOF\<close>, which the console compares
  with \<^verbatim>\<open>==\<close>, or some other error value, of which only the message is observed
  (\<^verbatim>\<open>errors.New(msg)\<close>, and \<^verbatim>\<open>%v\<close> in the log lines). An error made with
  \<^verbatim>\<open>errors.New("EOF")\<close> is not the sentinel: \<open>ErrorString ''EOF'' \<noteq> EOF\<close>.
\<close>

datatype error = EOF | ErrorString string

fun error_message :: "error \<Rightarrow> string" where
  "error_message EOF = ''EOF''"
| "error_message (ErrorString s) = s"

text \<open>A Go panic, with its message.\<close>

datatype panic = Panic string

subsection \<open>The terminal session\<close>

text \<open>
  \<^verbatim>\<open>*term.Terminal\<close> (golang.org/x/term) is not code of this package. The console
  uses four things of it, and the model keeps exactly those:
  \<^item> \<^verbatim>\<open>SetPrompt\<close>, which stores the prompt (the library has no way to read it back);
  \<^item> \<^verbatim>\<open>Escape\<close>, the escape codes \<^verbatim>\<open>Red\<close>, \<^verbatim>\<open>Cyan\<close> and \<^verbatim>\<open>Reset\<close>;
  \<^item> \<^verbatim>\<open>Write\<close> (through \<^verbatim>\<open>fmt.Fprintf\<close> and \<^verbatim>\<open>fmt.Fprintln\<close>, which format into a
    buffer and call \<^verbatim>\<open>Write\<close> once): \<open>written\<close> is the list of what was sent to the
    terminal, in order;
  \<^item> \<^verbatim>\<open>ReadLine\<close>, which shows the prompt in effect and returns the next line of the
    stream or an error. The stream is \<open>in_stream\<close>, the result of the \<open>n\<close>-th read for
    every \<open>n\<close>, and \<open>in_pos\<close> counts the reads made so far. A stream closed after \<open>n\<close>
    lines yields \<open>Inl EOF\<close> from \<open>n\<close> on; a stream that is never closed never does.
\<close>

record Terminal =
  prompt :: string
  Escape_Red :: string
  Escape_Cyan :: string
  Escape_Reset :: string
  in_stream :: "nat \<Rightarrow> error + string"
  in_pos :: nat
  written :: "string list"

definition SetPrompt :: "Terminal \<Rightarrow> string \<Rightarrow> Terminal" where
  "SetPrompt t p = t\<lparr>prompt := p\<rparr>"

definition Write :: "Terminal \<Rightarrow> string \<Rightarrow> Terminal" where
  "Write t buf = t\<lparr>written := written t @ [buf]\<rparr>"

definition ReadLine :: "Terminal \<Rightarrow> Terminal \<times> (error + string)" where
  "ReadLine t =
     (t\<lparr>in_pos := Suc (in_pos t), written := written t @ [prompt t]\<rparr>,
      in_stream t (in_pos t))"

text \<open>\<^verbatim>\<open>fmt.Fprintln(term, res)\<close>: the operand followed by a newline, in one write.\<close>

definition Fprintln :: "Terminal \<Rightarrow> string \<Rightarrow> Terminal" where
  "Fprintln t res = Write t (res @ [CHR 0x0A])"

subsection \<open>The log\<close>

text \<open>
  \<^verbatim>\<open>klog\<close> is the logging sink. A log is the list of the lines given to it, each with
  its severity.
\<close>

datatype log_entry = Info string | Errorf string

type_synonym log = "log_entry list"

definition klog_Info :: "log \<Rightarrow> string \<Rightarrow> log" where
  "klog_Info lg s = lg @ [Info s]"

definition klog_Errorf :: "log \<Rightarrow> string \<Rightarrow> log" where
  "klog_Errorf lg s = lg @ [Errorf s]"

subsection \<open>Commands and the registry\<close>

text \<open>
  \<^verbatim>\<open>type CmdFn func(term *term.Terminal, arg []string) (res string, err error)\<close>.
  A handler may use the terminal (\<open>confirm\<close> does), so it takes the session and returns
  it; \<open>None\<close> is the \<^verbatim>\<open>nil\<close> error.
\<close>

type_synonym CmdFn = "Terminal \<Rightarrow> string list \<Rightarrow> Terminal \<times> string \<times> error option"

text \<open>
  \<^verbatim>\<open>*regexp.Regexp\<close> is used through \<^verbatim>\<open>FindStringSubmatch\<close> only, so a compiled
  pattern is that function: the full match followed by the captured groups, or the
  empty list (Go's \<^verbatim>\<open>nil\<close>) when the pattern does not match. \<open>None\<close> is the
  \<^verbatim>\<open>nil\<close> pattern.
\<close>

type_synonym Regexp = "string \<Rightarrow> string list"

text \<open>
  The struct \<^verbatim>\<open>Cmd\<close>. Its field \<^verbatim>\<open>Help\<close> is \<open>Help_text\<close> here, the name
  \<open>Help\<close> being the function's.
\<close>

record Cmd =
  Name :: string
  Args :: int
  Pattern :: "Regexp option"
  Syntax :: string
  Help_text :: string
  Fn :: CmdFn

text \<open>\<^verbatim>\<open>var cmds = make(map[string]*Cmd)\<close>\<close>

type_synonym registry = "string \<rightharpoonup> Cmd"

definition Add :: "Cmd \<Rightarrow> registry \<Rightarrow> registry" where
  "Add cmd cmds = cmds(Name cmd \<mapsto> cmd)"

text \<open>
  A \<^verbatim>\<open>range\<close> over a Go map visits every key once, in an order the language leaves
  open and that changes from one loop to the next. Each function with such a loop takes
  the order of that visit as a list of keys, \<open>ord\<close>; the orders a run can see are the
  lists holding every key of the map once.
\<close>

definition range_order :: "string list \<Rightarrow> registry \<Rightarrow> bool" where
  "range_order ord cmds = (distinct ord \<and> set ord = dom cmds)"

text \<open>The values a \<^verbatim>\<open>range\<close> over the map yields, in the order of the visit.\<close>

definition range_values :: "string list \<Rightarrow> registry \<Rightarrow> Cmd list" where
  "range_values ord cmds = List.map_filter cmds ord"

subsection \<open>msg\<close>

definition separator :: string where
  "separator = ''-''"

definition separatorSize :: int where
  "separatorSize = 80"

text \<open>
  \<^verbatim>\<open>strings.Repeat(s, count)\<close> panics when \<open>count\<close> is negative.
\<close>

definition Repeat :: "string \<Rightarrow> int \<Rightarrow> panic + string" where
  "Repeat s count =
     (if count < 0 then Inl (Panic ''strings: negative Repeat count'')
      else Inr (concat (replicate (nat count) s)))"

text \<open>
  \<open>msg\<close> takes the message already formatted (the result of \<^verbatim>\<open>fmt.Sprintf(format,
  args...)\<close>); \<^verbatim>\<open>len(s)\<close> is the length of \<open>s\<close> in bytes.
\<close>

definition msg :: "string \<Rightarrow> log \<Rightarrow> panic + log" where
  "msg m lg =
     (case Repeat separator 2 of
        Inl p \<Rightarrow> Inl p
      | Inr s0 \<Rightarrow>
          (let s = s0 @ '' '';
               s = s @ m
           in case Repeat separator (separatorSize - int (length s)) of
                Inl p \<Rightarrow> Inl p
              | Inr pad \<Rightarrow> Inr (klog_Info lg (s @ pad))))"

subsection \<open>confirm\<close>

text \<open>
  The deferred \<^verbatim>\<open>SetPrompt\<close> runs on every return; its argument is evaluated where the
  \<^verbatim>\<open>defer\<close> statement stands, before the read.
\<close>

definition confirm :: "Terminal \<Rightarrow> Terminal \<times> bool" where
  "confirm t =
     (let t1 = SetPrompt t ''Are you sure? (y/n) '';
          deferred = Escape_Red t1 @ ''> '' @ Escape_Reset t1;
          (t2, r) = ReadLine t1
      in case r of
           Inl err \<Rightarrow> (SetPrompt t2 deferred, False)
         | Inr input \<Rightarrow> (SetPrompt t2 deferred, input = ''y''))"

subsection \<open>Help\<close>

text \<open>One row of the table: \<^verbatim>\<open>"%s\t%s\t # %s\n"\<close> of the name, the syntax and the help.\<close>

definition help_row :: "Cmd \<Rightarrow> string" where
  "help_row cmd =
     Name cmd @ [CHR 0x09] @ Syntax cmd @ [CHR 0x09] @ '' # '' @ Help_text cmd @ [CHR 0x0A]"

text \<open>
  The rows are written through a \<^verbatim>\<open>text/tabwriter\<close>, which aligns the columns when it
  is flushed. The writer is the standard library's, and is the parameter \<open>tabwriter\<close>:
  the text flushed for the text written. The names are collected by a \<^verbatim>\<open>range\<close> over
  the map, then sorted by \<^verbatim>\<open>sort.Strings\<close>, the byte-wise lexicographic order, which is
  the order of \<open>string\<close> here. Each name is then looked up in the map again; the names
  come from the map, so the lookup finds a command (a name with none would give no row).
\<close>

definition Help :: "(string \<Rightarrow> string) \<Rightarrow> string list \<Rightarrow> registry \<Rightarrow> Terminal \<Rightarrow> string" where
  "Help tabwriter ord cmds t =
     (let names = ord;
          names = sort names;
          help = tabwriter (concat (map help_row (List.map_filter cmds names)))
      in Escape_Cyan t @ help @ Escape_Reset t)"

subsection \<open>Handle\<close>

text \<open>
  The loop of \<open>Handle\<close> over the commands, in the order of the visit: it stops at the
  first command that matches, with \<open>arg\<close> left \<^verbatim>\<open>nil\<close> (the empty list) for a
  command matched by name and set to \<^verbatim>\<open>m[1:]\<close> for one matched by pattern.
\<close>

fun Handle_range :: "Cmd list \<Rightarrow> string \<Rightarrow> (Cmd \<times> string list) option" where
  "Handle_range [] line = None"
| "Handle_range (cmd # rest) line =
     (case Pattern cmd of
        None \<Rightarrow>
          (if Name cmd = line then Some (cmd, []) else Handle_range rest line)
      | Some re \<Rightarrow>
          (let m = re line
           in if length m > 0 \<and> int (length m) - 1 = Args cmd then Some (cmd, drop 1 m)
              else Handle_range rest line))"

text \<open>
  \<open>Handle\<close> returns the session and the error (\<open>None\<close> for \<^verbatim>\<open>nil\<close>).
\<close>

definition Handle :: "string list \<Rightarrow> registry \<Rightarrow> Terminal \<Rightarrow> string \<Rightarrow> Terminal \<times> error option" where
  "Handle ord cmds t line =
     (case Handle_range (range_values ord cmds) line of
        None \<Rightarrow> (t, Some (ErrorString ''unknown command, type `help`''))
      | Some (match, arg) \<Rightarrow>
          (case Fn match t arg of
             (t', res, Some err) \<Rightarrow> (t', Some err)
           | (t', res, None) \<Rightarrow> (Fprintln t' res, None)))"

subsection \<open>Console\<close>

text \<open>
  One turn of the loop of \<open>Console\<close>, on the session and the log: \<open>Terminated\<close> is
  \<^verbatim>\<open>break\<close>, \<open>Running\<close> is the next turn (\<^verbatim>\<open>continue\<close>, or the end of the body).
\<close>

datatype loop_state = Running "Terminal \<times> log" | Terminated "Terminal \<times> log"

definition Console_turn :: "string list \<Rightarrow> registry \<Rightarrow> Terminal \<times> log \<Rightarrow> loop_state" where
  "Console_turn ord cmds st =
     (case st of (t, lg) \<Rightarrow>
        (case ReadLine t of
           (t1, Inl err) \<Rightarrow>
             if err = EOF then Terminated (t1, lg)
             else Running (t1, klog_Errorf lg (''readline error: '' @ error_message err))
         | (t1, Inr s) \<Rightarrow>
             (case Handle ord cmds t1 s of
                (t2, Some err) \<Rightarrow>
                  if err = EOF then Terminated (t2, lg)
                  else Running (t2, klog_Errorf lg (''command error: '' @ error_message err))
              | (t2, None) \<Rightarrow> Running (t2, lg))))"

text \<open>
  The loop has no bound: it may run forever, and then \<open>Console_loop\<close> is \<open>None\<close>.
  \<open>sched i\<close> is the order in which the \<open>i\<close>-th \<^verbatim>\<open>range\<close> over the registry visits it.
\<close>

partial_function (option) Console_loop ::
  "(nat \<Rightarrow> string list) \<Rightarrow> registry \<Rightarrow> nat \<Rightarrow> Terminal \<times> log \<Rightarrow> (Terminal \<times> log) option" where
  "Console_loop sched cmds i st =
     (case Console_turn (sched i) cmds st of
        Terminated st' \<Rightarrow> Some st'
      | Running st' \<Rightarrow> Console_loop sched cmds (Suc i) st')"

text \<open>
  \<open>Console\<close>: the banner, the help listing (the first \<^verbatim>\<open>range\<close>), then the loop.
\<close>

definition Console ::
  "(string \<Rightarrow> string) \<Rightarrow> (nat \<Rightarrow> string list) \<Rightarrow> registry \<Rightarrow> string \<Rightarrow> Terminal \<times> log \<Rightarrow>
   (Terminal \<times> log) option" where
  "Console tabwriter sched cmds Banner st =
     (case st of (t, lg) \<Rightarrow>
        (let t = Write t (Banner @ [CHR 0x0A, CHR 0x0A]);
             t = Write t (Help tabwriter (sched 0) cmds t @ [CHR 0x0A])
         in Console_loop sched cmds 1 (t, lg)))"

text \<open>\<open>SerialConsole\<close>, on the terminal made for the process-wide stream.\<close>

definition SerialConsole ::
  "(string \<Rightarrow> string) \<Rightarrow> (nat \<Rightarrow> string list) \<Rightarrow> registry \<Rightarrow> string \<Rightarrow> Terminal \<times> log \<Rightarrow>
   (Terminal \<times> log) option" where
  "SerialConsole tabwriter sched cmds Banner st =
     (case st of (t, lg) \<Rightarrow>
        Console tabwriter sched cmds Banner
          (SetPrompt t (Escape_Red t @ ''> '' @ Escape_Reset t), lg))"

section \<open>Notions used to state the properties\<close>

text \<open>
  A command matches a line: by its name when it has no pattern, and otherwise when its
  pattern matches the line with as many captured groups as \<open>Args\<close>.
\<close>

definition cmd_matches :: "Cmd \<Rightarrow> string \<Rightarrow> bool" where
  "cmd_matches cmd line =
     (case Pattern cmd of
        None \<Rightarrow> Name cmd = line
      | Some re \<Rightarrow> re line \<noteq> [] \<and> int (length (re line)) - 1 = Args cmd)"

text \<open>
  The registry with the \<open>Args\<close> of every command without a pattern replaced (by \<open>f\<close>
  of the command), and nothing else changed.
\<close>

definition with_Args :: "(Cmd \<Rightarrow> int) \<Rightarrow> registry \<Rightarrow> registry" where
  "with_Args f cmds =
     (\<lambda>k. map_option (\<lambda>c. if Pattern c = None then c\<lparr>Args := f c\<rparr> else c) (cmds k))"

text \<open>
  The registry after a sequence of calls of \<open>Add\<close>, from the empty map the process
  starts with; and the most recent command added under a name.
\<close>

definition registered :: "Cmd list \<Rightarrow> registry" where
  "registered adds = foldl (\<lambda>cmds cmd. Add cmd cmds) Map.empty adds"

definition latest :: "Cmd list \<Rightarrow> string \<Rightarrow> Cmd option" where
  "latest adds name = find (\<lambda>cmd. Name cmd = name) (rev adds)"

text \<open>
  What happens in one turn of the loop of \<open>Console\<close>: the read fails, the command
  fails, or the command is done. The end of the stream is \<^verbatim>\<open>io.EOF\<close> from either.
\<close>

datatype turn_event = ReadFailed error | CommandFailed error | CommandDone

definition Console_event :: "string list \<Rightarrow> registry \<Rightarrow> Terminal \<times> log \<Rightarrow> turn_event" where
  "Console_event ord cmds st =
     (case ReadLine (fst st) of
        (t1, Inl err) \<Rightarrow> ReadFailed err
      | (t1, Inr s) \<Rightarrow>
          (case snd (Handle ord cmds t1 s) of
             Some err \<Rightarrow> CommandFailed err
           | None \<Rightarrow> CommandDone))"

definition end_of_stream :: "turn_event \<Rightarrow> bool" where
  "end_of_stream ev = (ev = ReadFailed EOF \<or> ev = CommandFailed EOF)"

text \<open>
  The loop after \<open>n\<close> turns, the first of them being the \<open>i\<close>-th \<^verbatim>\<open>range\<close>: still
  \<open>Running\<close>, or \<open>Terminated\<close> at one of these turns.
\<close>

fun Console_after ::
  "(nat \<Rightarrow> string list) \<Rightarrow> registry \<Rightarrow> nat \<Rightarrow> nat \<Rightarrow> Terminal \<times> log \<Rightarrow> loop_state" where
  "Console_after sched cmds i 0 st = Running st"
| "Console_after sched cmds i (Suc n) st =
     (case Console_turn (sched i) cmds st of
        Terminated st' \<Rightarrow> Terminated st'
      | Running st' \<Rightarrow> Console_after sched cmds (Suc i) n st')"

section \<open>Example commands and sessions\<close>

text \<open>
  The pattern \<^verbatim>\<open>^set (\d+)$\<close>, as its \<^verbatim>\<open>FindStringSubmatch\<close>: the line and its
  digits when the line is \<^verbatim>\<open>set\<close>, a space and one or more ASCII digits.
\<close>

definition is_digit :: "char \<Rightarrow> bool" where
  "is_digit c = (CHR ''0'' \<le> c \<and> c \<le> CHR ''9'')"

definition re_set_number :: Regexp where
  "re_set_number line =
     (if take 4 line = ''set '' \<and> drop 4 line \<noteq> [] \<and> list_all is_digit (drop 4 line)
      then [line, drop 4 line] else [])"

definition cmd_help :: Cmd where
  "cmd_help = \<lparr>Name = ''help'', Args = 0, Pattern = None, Syntax = [],
     Help_text = ''this help'', Fn = (\<lambda>t arg. (t, ''commands'', None))\<rparr>"

definition cmd_reboot :: Cmd where
  "cmd_reboot = \<lparr>Name = ''reboot'', Args = 3, Pattern = None, Syntax = [],
     Help_text = ''reset device'', Fn = (\<lambda>t arg. (t, [], Some (ErrorString ''not allowed'')))\<rparr>"

definition cmd_reboot2 :: Cmd where
  "cmd_reboot2 = \<lparr>Name = ''reboot'', Args = 0, Pattern = None, Syntax = [],
     Help_text = ''restart'', Fn = (\<lambda>t arg. (t, ''bye'', Some EOF))\<rparr>"

definition cmd_set_x :: Cmd where
  "cmd_set_x = \<lparr>Name = ''set-x'', Args = 1, Pattern = Some re_set_number, Syntax = ''<n>'',
     Help_text = ''set x'', Fn = (\<lambda>t arg. (t, ''x='' @ concat arg, None))\<rparr>"

definition cmd_set_y :: Cmd where
  "cmd_set_y = \<lparr>Name = ''set-y'', Args = 1, Pattern = Some re_set_number, Syntax = ''<n>'',
     Help_text = ''set y'', Fn = (\<lambda>t arg. (t, ''y='' @ concat arg, None))\<rparr>"

definition demo_cmds :: registry where
  "demo_cmds = Add cmd_set_x (Add cmd_reboot (Add cmd_help Map.empty))"

text \<open>Two commands with the same pattern.\<close>

definition overlap_cmds :: registry where
  "overlap_cmds = Add cmd_set_y (Add cmd_set_x Map.empty)"

text \<open>A stream that gives the results \<open>rs\<close> and is closed after them.\<close>

definition closed_after :: "(error + string) list \<Rightarrow> nat \<Rightarrow> error + string" where
  "closed_after rs n = (if n < length rs then rs ! n else Inl EOF)"

definition demo_lines :: "nat \<Rightarrow> error + string" where
  "demo_lines = closed_after [Inr ''bogus'', Inl (ErrorString ''timeout''), Inr ''set 5'']"

text \<open>A fresh terminal on a stream, with the escape codes of a VT100 and a given prompt.\<close>

definition session :: "string \<Rightarrow> (nat \<Rightarrow> error + string) \<Rightarrow> Terminal" where
  "session p s = \<lparr>prompt = p, Escape_Red = CHR 0x1B # ''[31m'', Escape_Cyan = CHR 0x1B # ''[36m'',
     Escape_Reset = CHR 0x1B # ''[0m'', in_stream = s, in_pos = 0, written = []\<rparr>"

section \<open>Properties\<close>

lemmas demo_defs = demo_cmds_def overlap_cmds_def Add_def cmd_help_def cmd_reboot_def
  cmd_set_x_def cmd_set_y_def re_set_number_def is_digit_def session_def closed_after_def

subsection \<open>The scan of the registry\<close>

lemma range_values_Nil: "range_values [] cmds = []"
  by (simp add: range_values_def List.map_filter_def)

lemma range_values_Cons:
  "range_values (k # ks) cmds =
     (case cmds k of None \<Rightarrow> range_values ks cmds | Some c \<Rightarrow> c # range_values ks cmds)"
  by (simp add: range_values_def List.map_filter_def split: option.splits)

lemma range_values_append:
  "range_values (xs @ ys) cmds = range_values xs cmds @ range_values ys cmds"
  by (simp add: range_values_def List.map_filter_def)

lemma range_values_split:
  "cmds k = Some cmd \<Longrightarrow>
     range_values (pre @ k # post) cmds = range_values pre cmds @ cmd # range_values post cmds"
  by (simp add: range_values_append range_values_Cons)

lemma set_range_values:
  "set (range_values ord cmds) = {c. \<exists>k\<in>set ord. cmds k = Some c}"
  by (induction ord) (auto simp: range_values_Cons range_values_Nil split: option.splits)

lemmas demo_simps = demo_defs cmd_matches_def range_values_Cons range_values_Nil range_order_def

lemma Handle_range_None_iff:
  "(Handle_range cs line = None) = list_all (\<lambda>c. \<not> cmd_matches c line) cs"
  by (induction cs) (auto simp: cmd_matches_def Let_def split: option.splits)

lemma Handle_range_SomeD:
  "Handle_range cs line = Some (cmd, arg) \<Longrightarrow>
     cmd \<in> set cs \<and>
     (case Pattern cmd of
        None \<Rightarrow> Name cmd = line \<and> arg = []
      | Some re \<Rightarrow>
          re line \<noteq> [] \<and> int (length (re line)) - 1 = Args cmd \<and> arg = drop 1 (re line))"
  by (induction cs) (auto simp: Let_def split: option.splits if_splits)

lemma Handle_range_first:
  "list_all (\<lambda>c. \<not> cmd_matches c line) pre \<Longrightarrow> cmd_matches cmd line \<Longrightarrow>
     Handle_range (pre @ cmd # post) line =
       Some (cmd, case Pattern cmd of None \<Rightarrow> [] | Some re \<Rightarrow> drop 1 (re line))"
  by (induction pre) (auto simp: cmd_matches_def Let_def split: option.splits)

lemma Handle_range_first_key:
  assumes "cmds k = Some cmd" and "cmd_matches cmd line"
    and "list_all (\<lambda>c. \<not> cmd_matches c line) (range_values pre cmds)"
  shows "Handle_range (range_values (pre @ k # post) cmds) line =
           Some (cmd, case Pattern cmd of None \<Rightarrow> [] | Some re \<Rightarrow> drop 1 (re line))"
  using assms by (simp add: range_values_split Handle_range_first)

lemma range_order_split:
  assumes "range_order ord cmds" and "cmds k = Some cmd"
  shows "\<exists>pre post. ord = pre @ k # post \<and> removeAll k ord = pre @ post"
proof -
  from assms have "k \<in> set ord" by (auto simp: range_order_def)
  then obtain pre post where ord: "ord = pre @ k # post" by (auto dest: split_list)
  with assms(1) have "k \<notin> set pre" "k \<notin> set post" by (auto simp: range_order_def)
  with ord have "removeAll k ord = pre @ post" by simp
  with ord show ?thesis by blast
qed

lemma Handle_range_only_key:
  assumes "range_order ord cmds" and "cmds k = Some cmd" and "cmd_matches cmd line"
    and "list_all (\<lambda>c. \<not> cmd_matches c line) (range_values (removeAll k ord) cmds)"
  shows "Handle_range (range_values ord cmds) line =
           Some (cmd, case Pattern cmd of None \<Rightarrow> [] | Some re \<Rightarrow> drop 1 (re line))"
proof -
  from range_order_split [OF assms(1,2)] obtain pre post
    where ord: "ord = pre @ k # post" and rem: "removeAll k ord = pre @ post" by blast
  from assms(4) rem have "list_all (\<lambda>c. \<not> cmd_matches c line) (range_values pre cmds)"
    by (simp add: range_values_append)
  with assms(2,3) show ?thesis unfolding ord by (rule Handle_range_first_key)
qed

lemma Handle_selected:
  "Handle_range (range_values ord cmds) line = Some (cmd, arg) \<Longrightarrow>
     Handle ord cmds t line =
       (case Fn cmd t arg of
          (t', res, Some err) \<Rightarrow> (t', Some err)
        | (t', res, None) \<Rightarrow> (Fprintln t' res, None))"
  by (simp add: Handle_def)

subsection \<open>Handle: commands with a pattern\<close>

text \<open>
  C1 (amended). For a registered command with a non-nil \<open>Pattern\<close>:
  \<^item> if \<open>Handle\<close> selects it for a line, the command is in the registry, the pattern
    matches the line and the number of captured groups, the full match excluded, is
    \<open>Args\<close>; the argument list is then the captured groups, in order, without the
    full match;
  \<^item> if the pattern matches the line with \<open>Args\<close> captured groups and no command
    visited before it in the scan matches the line, \<open>Handle\<close> selects it and calls its
    handler with exactly the captured groups;
  \<^item> in particular, if it is the only registered command that matches the line,
    \<open>Handle\<close> selects it whatever the order of the scan.
  A command that matches is not selected when the scan meets another matching command
  first: the loop stops at the first match.
\<close>

theorem Handle_pattern_selection:
  assumes "Pattern cmd = Some re"
  shows
    "(Handle_range (range_values ord cmds) line = Some (cmd, arg) \<longrightarrow>
        (\<exists>k\<in>set ord. cmds k = Some cmd) \<and>
        re line \<noteq> [] \<and> int (length (re line)) - 1 = Args cmd \<and> arg = drop 1 (re line)) \<and>
     (cmds k = Some cmd \<and> re line \<noteq> [] \<and> int (length (re line)) - 1 = Args cmd \<and>
      list_all (\<lambda>c. \<not> cmd_matches c line) (range_values pre cmds) \<longrightarrow>
        Handle_range (range_values (pre @ k # post) cmds) line = Some (cmd, drop 1 (re line)) \<and>
        Handle (pre @ k # post) cmds t line =
          (case Fn cmd t (drop 1 (re line)) of
             (t', res, Some err) \<Rightarrow> (t', Some err)
           | (t', res, None) \<Rightarrow> (Fprintln t' res, None))) \<and>
     (range_order ord cmds \<and> cmds k = Some cmd \<and>
      re line \<noteq> [] \<and> int (length (re line)) - 1 = Args cmd \<and>
      list_all (\<lambda>c. \<not> cmd_matches c line) (range_values (removeAll k ord) cmds) \<longrightarrow>
        Handle_range (range_values ord cmds) line = Some (cmd, drop 1 (re line)))"
proof (intro conjI impI)
  assume sel: "Handle_range (range_values ord cmds) line = Some (cmd, arg)"
  from Handle_range_SomeD [OF sel] assms
  have "cmd \<in> set (range_values ord cmds)"
    and m: "re line \<noteq> []" "int (length (re line)) - 1 = Args cmd" "arg = drop 1 (re line)"
    by simp_all
  then show "\<exists>k\<in>set ord. cmds k = Some cmd" by (simp add: set_range_values)
  from m show "re line \<noteq> []" "int (length (re line)) - 1 = Args cmd" "arg = drop 1 (re line)" .
next
  assume h: "cmds k = Some cmd \<and> re line \<noteq> [] \<and> int (length (re line)) - 1 = Args cmd \<and>
      list_all (\<lambda>c. \<not> cmd_matches c line) (range_values pre cmds)"
  with assms have "cmd_matches cmd line" by (simp add: cmd_matches_def)
  with h assms
  show sel: "Handle_range (range_values (pre @ k # post) cmds) line = Some (cmd, drop 1 (re line))"
    using Handle_range_first_key [of cmds k cmd line pre post] by simp
  show "Handle (pre @ k # post) cmds t line =
          (case Fn cmd t (drop 1 (re line)) of
             (t', res, Some err) \<Rightarrow> (t', Some err)
           | (t', res, None) \<Rightarrow> (Fprintln t' res, None))"
    by (rule Handle_selected [OF sel])
next
  assume h: "range_order ord cmds \<and> cmds k = Some cmd \<and>
      re line \<noteq> [] \<and> int (length (re line)) - 1 = Args cmd \<and>
      list_all (\<lambda>c. \<not> cmd_matches c line) (range_values (removeAll k ord) cmds)"
  with assms have "cmd_matches cmd line" by (simp add: cmd_matches_def)
  with h assms show "Handle_range (range_values ord cmds) line = Some (cmd, drop 1 (re line))"
    using Handle_range_only_key [of ord cmds k cmd line] by simp
qed

text \<open>
  The line \<open>''set 42''\<close> on the registry of \<open>help\<close>, \<open>reboot\<close> and \<open>set-x\<close>: the
  handler of \<open>set-x\<close> gets \<open>[''42'']\<close>.
\<close>

theorem Handle_pattern_selection_witness:
  "Pattern cmd_set_x = Some re_set_number \<and>
   demo_cmds ''set-x'' = Some cmd_set_x \<and>
   re_set_number ''set 42'' = [''set 42'', ''42''] \<and> Args cmd_set_x = 1 \<and>
   range_order [''reboot'', ''help'', ''set-x''] demo_cmds \<and>
   list_all (\<lambda>c. \<not> cmd_matches c ''set 42'') (range_values [''reboot'', ''help''] demo_cmds) \<and>
   Handle_range (range_values [''reboot'', ''help'', ''set-x''] demo_cmds) ''set 42'' =
     Some (cmd_set_x, [''42'']) \<and>
   Handle [''reboot'', ''help'', ''set-x''] demo_cmds (session ''> '' (closed_after [])) ''set 42'' =
     (Fprintln (session ''> '' (closed_after [])) ''x=42'', None)"
  using Handle_pattern_selection [of cmd_set_x re_set_number "[''reboot'', ''help'', ''set-x'']"
      demo_cmds "''set 42''" "[''42'']" "''set-x''" "[''reboot'', ''help'']" "[]"
      "session ''> '' (closed_after [])"]
  by (simp add: demo_simps insert_commute)

text \<open>
  The claim as stated fails where two commands match the same line: \<open>set-y\<close> is
  registered, its pattern matches \<open>''set 42''\<close> with \<open>Args = 1\<close> captured group, and
  a scan that visits \<open>set-x\<close> first selects \<open>set-x\<close>, not \<open>set-y\<close>.
\<close>

theorem Handle_pattern_selection_counterexample:
  "overlap_cmds ''set-y'' = Some cmd_set_y \<and> Pattern cmd_set_y = Some re_set_number \<and>
   range_order [''set-x'', ''set-y''] overlap_cmds \<and>
   \<not> ((Handle_range (range_values [''set-x'', ''set-y''] overlap_cmds) ''set 42'' =
         Some (cmd_set_y, [''42''])) =
       (re_set_number ''set 42'' \<noteq> [] \<and>
        int (length (re_set_number ''set 42'')) - 1 = Args cmd_set_y)) \<and>
   written (fst (Handle [''set-x'', ''set-y''] overlap_cmds (session ''> '' (closed_after []))
     ''set 42'')) = [''x=42'' @ [CHR 0x0A]]"
  by (simp add: demo_simps insert_commute Handle_def Fprintln_def Write_def)

subsection \<open>Handle: commands without a pattern\<close>

text \<open>
  C2. A registered command with a nil \<open>Pattern\<close> is selected by \<open>Handle\<close> only when the
  line is equal to its \<open>Name\<close> (equality of the whole strings, byte for byte), and its
  handler is then called with the empty argument list.
\<close>

theorem Handle_name_selection:
  assumes "Pattern cmd = None"
    and "Handle_range (range_values ord cmds) line = Some (cmd, arg)"
  shows "(\<exists>k\<in>set ord. cmds k = Some cmd) \<and> line = Name cmd \<and> arg = [] \<and>
         Handle ord cmds t line =
           (case Fn cmd t [] of
              (t', res, Some err) \<Rightarrow> (t', Some err)
            | (t', res, None) \<Rightarrow> (Fprintln t' res, None))"
proof -
  from Handle_range_SomeD [OF assms(2)] assms(1)
  have "cmd \<in> set (range_values ord cmds)" and l: "line = Name cmd" and a: "arg = []"
    by auto
  then have "\<exists>k\<in>set ord. cmds k = Some cmd" by (simp add: set_range_values)
  moreover from Handle_selected [OF assms(2)] a
  have "Handle ord cmds t line =
           (case Fn cmd t [] of
              (t', res, Some err) \<Rightarrow> (t', Some err)
            | (t', res, None) \<Rightarrow> (Fprintln t' res, None))" by simp
  ultimately show ?thesis using l a by simp
qed

text \<open>
  \<open>help\<close> is selected for the line \<open>''help''\<close>; no command is selected for \<open>''Help''\<close>
  or for \<open>''help ''\<close>.
\<close>

theorem Handle_name_selection_witness:
  "Pattern cmd_help = None \<and>
   Handle_range (range_values [''set-x'', ''help'', ''reboot''] demo_cmds) ''help'' =
     Some (cmd_help, []) \<and>
   ''help'' = Name cmd_help \<and>
   Handle [''set-x'', ''help'', ''reboot''] demo_cmds (session ''> '' (closed_after [])) ''help'' =
     (Fprintln (session ''> '' (closed_after [])) ''commands'', None) \<and>
   Handle_range (range_values [''set-x'', ''help'', ''reboot''] demo_cmds) ''Help'' = None \<and>
   Handle_range (range_values [''set-x'', ''help'', ''reboot''] demo_cmds) ''help '' = None"
  using Handle_name_selection [of cmd_help "[''set-x'', ''help'', ''reboot'']" demo_cmds
      "''help''" "[]" "session ''> '' (closed_after [])"]
  by (simp add: demo_simps)

lemma Handle_range_with_Args:
  "Handle_range (map (\<lambda>c. if Pattern c = None then c\<lparr>Args := f c\<rparr> else c) cs) line =
     map_option (\<lambda>(c, arg). (if Pattern c = None then c\<lparr>Args := f c\<rparr> else c, arg))
       (Handle_range cs line)"
  by (induction cs) (auto simp: Let_def split: option.splits)

lemma range_values_with_Args:
  "range_values ord (with_Args f cmds) =
     map (\<lambda>c. if Pattern c = None then c\<lparr>Args := f c\<rparr> else c) (range_values ord cmds)"
  by (induction ord)
    (auto simp: range_values_Cons range_values_Nil with_Args_def split: option.splits)

text \<open>
  C10. The \<open>Args\<close> of a command with a nil \<open>Pattern\<close> has no effect on dispatch:
  \<open>Handle\<close> does the same on a registry and on the registry with the \<open>Args\<close> of these
  commands replaced by any values; and such a command, whatever its \<open>Args\<close>, is
  selected on the equality of the line and its name (when no command visited before it
  matches) and its handler is called with the empty argument list.
\<close>

theorem Handle_ignores_Args_without_Pattern:
  "Handle ord (with_Args f cmds) t line = Handle ord cmds t line \<and>
   (Pattern cmd = None \<and> cmds k = Some cmd \<and> Name cmd = line \<and>
    list_all (\<lambda>c. \<not> cmd_matches c line) (range_values pre cmds) \<longrightarrow>
      Handle_range (range_values (pre @ k # post) cmds) line = Some (cmd, []) \<and>
      Handle (pre @ k # post) cmds t line =
        (case Fn cmd t [] of
           (t', res, Some err) \<Rightarrow> (t', Some err)
         | (t', res, None) \<Rightarrow> (Fprintln t' res, None)))"
proof (intro conjI impI)
  show "Handle ord (with_Args f cmds) t line = Handle ord cmds t line"
    by (cases "Handle_range (range_values ord cmds) line")
      (auto simp: Handle_def range_values_with_Args Handle_range_with_Args)
next
  assume h: "Pattern cmd = None \<and> cmds k = Some cmd \<and> Name cmd = line \<and>
    list_all (\<lambda>c. \<not> cmd_matches c line) (range_values pre cmds)"
  then have "cmd_matches cmd line" by (simp add: cmd_matches_def)
  with h show sel: "Handle_range (range_values (pre @ k # post) cmds) line = Some (cmd, [])"
    using Handle_range_first_key [of cmds k cmd line pre post] by simp
  show "Handle (pre @ k # post) cmds t line =
        (case Fn cmd t [] of
           (t', res, Some err) \<Rightarrow> (t', Some err)
         | (t', res, None) \<Rightarrow> (Fprintln t' res, None))"
    by (rule Handle_selected [OF sel])
qed

text \<open>\<open>reboot\<close> has no pattern and \<open>Args = 3\<close>; its handler is called with \<open>[]\<close>.\<close>

theorem Handle_ignores_Args_without_Pattern_witness:
  "Pattern cmd_reboot = None \<and> Args cmd_reboot = 3 \<and> demo_cmds ''reboot'' = Some cmd_reboot \<and>
   Name cmd_reboot = ''reboot'' \<and>
   list_all (\<lambda>c. \<not> cmd_matches c ''reboot'') (range_values [''set-x'', ''help''] demo_cmds) \<and>
   Handle_range (range_values [''set-x'', ''help'', ''reboot''] demo_cmds) ''reboot'' =
     Some (cmd_reboot, []) \<and>
   Handle [''set-x'', ''help'', ''reboot''] demo_cmds (session ''> '' (closed_after [])) ''reboot'' =
     (session ''> '' (closed_after []), Some (ErrorString ''not allowed'')) \<and>
   Handle [''set-x'', ''help'', ''reboot''] (with_Args (\<lambda>c. 0) demo_cmds)
       (session ''> '' (closed_after [])) ''reboot'' =
     Handle [''set-x'', ''help'', ''reboot''] demo_cmds (session ''> '' (closed_after [])) ''reboot''"
  using Handle_ignores_Args_without_Pattern [of "[''set-x'', ''help'', ''reboot'']" "\<lambda>c. 0"
      demo_cmds "session ''> '' (closed_after [])" "''reboot''" cmd_reboot "''reboot''"
      "[''set-x'', ''help'']" "[]"]
  by (simp add: demo_simps)

subsection \<open>Handle: no match, and the handler's result\<close>

text \<open>
  C3. When no registered command matches the line, by its name or by its pattern with
  \<open>Args\<close> captured groups, \<open>Handle\<close> returns the error with the message
  \<^verbatim>\<open>unknown command, type `help`\<close> and leaves the session as it was: nothing is
  written.
\<close>

theorem Handle_unknown_command:
  assumes "\<forall>k cmd. cmds k = Some cmd \<longrightarrow> \<not> cmd_matches cmd line"
  shows "Handle ord cmds t line = (t, Some (ErrorString ''unknown command, type `help`''))"
proof -
  from assms have "list_all (\<lambda>c. \<not> cmd_matches c line) (range_values ord cmds)"
    by (auto simp: list_all_iff set_range_values)
  then have "Handle_range (range_values ord cmds) line = None"
    by (simp add: Handle_range_None_iff)
  then show ?thesis by (simp add: Handle_def)
qed

text \<open>The line \<open>''set''\<close>, with no number, matches none of \<open>help\<close>, \<open>reboot\<close>, \<open>set-x\<close>.\<close>

theorem Handle_unknown_command_witness:
  "Handle [''set-x'', ''help'', ''reboot''] demo_cmds (session ''> '' (closed_after [])) ''set'' =
     (session ''> '' (closed_after []), Some (ErrorString ''unknown command, type `help`'')) \<and>
   written (fst (Handle [''set-x'', ''help'', ''reboot''] demo_cmds
     (session ''> '' (closed_after [])) ''set'')) = []"
proof -
  have "\<forall>k cmd. demo_cmds k = Some cmd \<longrightarrow> \<not> cmd_matches cmd ''set''"
    by (auto simp: demo_simps split: if_splits)
  from Handle_unknown_command [OF this]
  show ?thesis by (simp add: session_def)
qed

text \<open>
  C4. When \<open>Handle\<close> has selected a command: if the handler returns an error, \<open>Handle\<close>
  returns that same error and the session is the one the handler left, with nothing
  written to it by \<open>Handle\<close>; if the handler returns no error, \<open>Handle\<close> writes the
  result followed by a newline, in one write, and returns no error.
\<close>

theorem Handle_result:
  assumes "Handle_range (range_values ord cmds) line = Some (cmd, arg)"
  shows "(Fn cmd t arg = (t', res, Some err) \<longrightarrow> Handle ord cmds t line = (t', Some err)) \<and>
         (Fn cmd t arg = (t', res, None) \<longrightarrow>
            Handle ord cmds t line = (t'\<lparr>written := written t' @ [res @ [CHR 0x0A]]\<rparr>, None))"
  using assms by (simp add: Handle_def Fprintln_def Write_def)

text \<open>\<open>reboot\<close> fails and nothing is written; \<open>set 7\<close> succeeds and its result is written.\<close>

theorem Handle_result_witness:
  "Handle_range (range_values [''set-x'', ''help'', ''reboot''] demo_cmds) ''reboot'' =
     Some (cmd_reboot, []) \<and>
   Fn cmd_reboot (session ''> '' (closed_after [])) [] =
     (session ''> '' (closed_after []), [], Some (ErrorString ''not allowed'')) \<and>
   Handle [''set-x'', ''help'', ''reboot''] demo_cmds (session ''> '' (closed_after [])) ''reboot'' =
     (session ''> '' (closed_after []), Some (ErrorString ''not allowed'')) \<and>
   Handle_range (range_values [''set-x'', ''help'', ''reboot''] demo_cmds) ''set 7'' =
     Some (cmd_set_x, [''7'']) \<and>
   Fn cmd_set_x (session ''> '' (closed_after [])) [''7''] =
     (session ''> '' (closed_after []), ''x=7'', None) \<and>
   Handle [''set-x'', ''help'', ''reboot''] demo_cmds (session ''> '' (closed_after [])) ''set 7'' =
     ((session ''> '' (closed_after []))\<lparr>written := [''x=7'' @ [CHR 0x0A]]\<rparr>, None)"
  using
    Handle_result [of "[''set-x'', ''help'', ''reboot'']" demo_cmds "''reboot''" cmd_reboot "[]"
      "session ''> '' (closed_after [])" "session ''> '' (closed_after [])" "[]"
      "ErrorString ''not allowed''"]
    Handle_result [of "[''set-x'', ''help'', ''reboot'']" demo_cmds "''set 7''" cmd_set_x "[''7'']"
      "session ''> '' (closed_after [])" "session ''> '' (closed_after [])" "''x=7''"]
  by (simp add: demo_simps)

subsection \<open>The loop of Console\<close>

lemma Console_turn_Terminated_iff:
  "(\<exists>st'. Console_turn ord cmds st = Terminated st') = end_of_stream (Console_event ord cmds st)"
  by (cases st)
    (auto simp: Console_turn_def Console_event_def end_of_stream_def
      split: prod.splits sum.splits option.splits)

lemma Console_after_Terminated_loop:
  "Console_after sched cmds i n st = Terminated st' \<Longrightarrow> Console_loop sched cmds i st = Some st'"
proof (induction n arbitrary: i st)
  case 0
  then show ?case by simp
next
  case (Suc n)
  show ?case
  proof (cases "Console_turn (sched i) cmds st")
    case (Running st1)
    with Suc.prems have "Console_after sched cmds (Suc i) n st1 = Terminated st'" by simp
    then have "Console_loop sched cmds (Suc i) st1 = Some st'" by (rule Suc.IH)
    with Running show ?thesis by (subst Console_loop.simps) simp
  next
    case (Terminated st1)
    with Suc.prems have "st1 = st'" by simp
    with Terminated show ?thesis by (subst Console_loop.simps) simp
  qed
qed

lemma Console_loop_Some_after:
  assumes "Console_loop sched cmds i st = Some st'"
  shows "\<exists>n. Console_after sched cmds i n st = Terminated st'"
proof (rule Console_loop.raw_induct
    [where P = "\<lambda>sched cmds i st st'. \<exists>n. Console_after sched cmds i n st = Terminated st'",
      OF _ assms])
  fix loop sched cmds i st st'
  assume IH: "\<And>sched cmds i st st'. loop sched cmds i st = Some st' \<Longrightarrow>
     \<exists>n. Console_after sched cmds i n st = Terminated st'"
  assume eq: "(case Console_turn (sched i) cmds st of
       Running st1 \<Rightarrow> loop sched cmds (Suc i) st1
     | Terminated st1 \<Rightarrow> Some st1) = Some st'"
  show "\<exists>n. Console_after sched cmds i n st = Terminated st'"
  proof (cases "Console_turn (sched i) cmds st")
    case (Running st1)
    with eq have "loop sched cmds (Suc i) st1 = Some st'" by simp
    from IH [OF this] obtain n where "Console_after sched cmds (Suc i) n st1 = Terminated st'" ..
    with Running have "Console_after sched cmds i (Suc n) st = Terminated st'" by simp
    then show ?thesis ..
  next
    case (Terminated st1)
    with eq have "Console_after sched cmds i (Suc 0) st = Terminated st'" by simp
    then show ?thesis ..
  qed
qed

lemma Console_after_Terminated_iff:
  "(Console_after sched cmds i n st0 = Terminated st') =
     (\<exists>m st. m < n \<and> Console_after sched cmds i m st0 = Running st \<and>
        Console_turn (sched (i + m)) cmds st = Terminated st')"
proof (induction n arbitrary: i st0)
  case 0
  then show ?case by simp
next
  case (Suc n)
  show ?case
  proof (cases "Console_turn (sched i) cmds st0")
    case (Running st1)
    have "(\<exists>m st. m < Suc n \<and> Console_after sched cmds i m st0 = Running st \<and>
             Console_turn (sched (i + m)) cmds st = Terminated st') =
          (\<exists>m st. m < n \<and> Console_after sched cmds i (Suc m) st0 = Running st \<and>
             Console_turn (sched (i + Suc m)) cmds st = Terminated st')" (is "?L = ?R")
    proof
      assume ?L
      then obtain m st where m: "m < Suc n" "Console_after sched cmds i m st0 = Running st"
        "Console_turn (sched (i + m)) cmds st = Terminated st'" by blast
      with Running have "m \<noteq> 0" by (cases m) auto
      then obtain m' where "m = Suc m'" by (cases m) auto
      with m have "m' < n \<and> Console_after sched cmds i (Suc m') st0 = Running st \<and>
        Console_turn (sched (i + Suc m')) cmds st = Terminated st'" by simp
      then show ?R by blast
    next
      assume ?R
      then obtain m st where "m < n" "Console_after sched cmds i (Suc m) st0 = Running st"
        "Console_turn (sched (i + Suc m)) cmds st = Terminated st'" by blast
      then have "Suc m < Suc n \<and> Console_after sched cmds i (Suc m) st0 = Running st \<and>
        Console_turn (sched (i + Suc m)) cmds st = Terminated st'" by simp
      then show ?L by blast
    qed
    with Running Suc.IH [of "Suc i" st1] show ?thesis by simp
  next
    case (Terminated st1)
    have "(\<exists>m st. m < Suc n \<and> Console_after sched cmds i m st0 = Running st \<and>
             Console_turn (sched (i + m)) cmds st = Terminated st') = (st1 = st')" (is "?L = _")
    proof
      assume ?L
      then obtain m st where m: "Console_after sched cmds i m st0 = Running st"
        "Console_turn (sched (i + m)) cmds st = Terminated st'" by blast
      with Terminated have "m = 0" by (cases m) auto
      with m Terminated show "st1 = st'" by simp
    next
      assume "st1 = st'"
      with Terminated have "0 < Suc n \<and> Console_after sched cmds i 0 st0 = Running st0 \<and>
        Console_turn (sched (i + 0)) cmds st0 = Terminated st'" by simp
      then show ?L by blast
    qed
    with Terminated show ?thesis by simp
  qed
qed

lemma Console_loop_Some_iff:
  "(Console_loop sched cmds i st = Some st') =
     (\<exists>n. Console_after sched cmds i n st = Terminated st')"
  using Console_after_Terminated_loop Console_loop_Some_after by blast

lemma Console_loop_returns_iff:
  "(Console_loop sched cmds i st0 \<noteq> None) =
     (\<exists>n st. Console_after sched cmds i n st0 = Running st \<and>
        end_of_stream (Console_event (sched (i + n)) cmds st))"
proof
  assume "Console_loop sched cmds i st0 \<noteq> None"
  then obtain st' where "Console_loop sched cmds i st0 = Some st'" by auto
  then obtain n where "Console_after sched cmds i n st0 = Terminated st'"
    by (auto simp: Console_loop_Some_iff)
  then obtain m st where "Console_after sched cmds i m st0 = Running st"
    "Console_turn (sched (i + m)) cmds st = Terminated st'"
    by (auto simp: Console_after_Terminated_iff)
  then have "Console_after sched cmds i m st0 = Running st \<and>
    end_of_stream (Console_event (sched (i + m)) cmds st)"
    using Console_turn_Terminated_iff [of "sched (i + m)" cmds st] by auto
  then show "\<exists>n st. Console_after sched cmds i n st0 = Running st \<and>
        end_of_stream (Console_event (sched (i + n)) cmds st)" by blast
next
  assume "\<exists>n st. Console_after sched cmds i n st0 = Running st \<and>
        end_of_stream (Console_event (sched (i + n)) cmds st)"
  then obtain n st where n: "Console_after sched cmds i n st0 = Running st"
    and "end_of_stream (Console_event (sched (i + n)) cmds st)" by blast
  then obtain st' where "Console_turn (sched (i + n)) cmds st = Terminated st'"
    using Console_turn_Terminated_iff [of "sched (i + n)" cmds st] by auto
  with n have "n < Suc n \<and> Console_after sched cmds i n st0 = Running st \<and>
    Console_turn (sched (i + n)) cmds st = Terminated st'" by simp
  then have "Console_after sched cmds i (Suc n) st0 = Terminated st'"
    unfolding Console_after_Terminated_iff [of sched cmds i "Suc n"] by blast
  then have "Console_loop sched cmds i st0 = Some st'"
    by (rule Console_after_Terminated_loop)
  then show "Console_loop sched cmds i st0 \<noteq> None" by simp
qed

text \<open>
  C5. A turn of the loop of \<open>Console\<close> ends the loop exactly when the end of the stream
  occurs in it, as the error of the read or as the error \<open>Handle\<close> returns. In every
  other case the loop goes on to the next read: another read error is logged, another
  error of \<open>Handle\<close> (the unknown command, a handler's error) is logged, and a command
  that is done leaves the log as it was. So the loop returns exactly when some turn,
  reached through turns that all went on, meets the end of the stream; when none does,
  it runs forever.
\<close>

theorem Console_terminates_iff_end_of_stream:
  "((\<exists>st'. Console_turn ord cmds (t, lg) = Terminated st') =
      end_of_stream (Console_event ord cmds (t, lg))) \<and>
   (Console_event ord cmds (t, lg) = ReadFailed err \<and> err \<noteq> EOF \<longrightarrow>
      Console_turn ord cmds (t, lg) =
        Running (fst (ReadLine t), lg @ [Errorf (''readline error: '' @ error_message err)])) \<and>
   (Console_event ord cmds (t, lg) = CommandFailed err \<and> err \<noteq> EOF \<longrightarrow>
      (\<exists>s. snd (ReadLine t) = Inr s \<and>
        Console_turn ord cmds (t, lg) =
          Running (fst (Handle ord cmds (fst (ReadLine t)) s),
                   lg @ [Errorf (''command error: '' @ error_message err)]))) \<and>
   (Console_event ord cmds (t, lg) = CommandDone \<longrightarrow>
      (\<exists>s. snd (ReadLine t) = Inr s \<and>
        Console_turn ord cmds (t, lg) = Running (fst (Handle ord cmds (fst (ReadLine t)) s), lg))) \<and>
   ((Console_loop sched cmds i st0 = Some st') =
      (\<exists>n. Console_after sched cmds i n st0 = Terminated st')) \<and>
   ((Console_loop sched cmds i st0 \<noteq> None) =
      (\<exists>n st. Console_after sched cmds i n st0 = Running st \<and>
         end_of_stream (Console_event (sched (i + n)) cmds st)))"
proof (intro conjI impI)
  show "(\<exists>st'. Console_turn ord cmds (t, lg) = Terminated st') =
      end_of_stream (Console_event ord cmds (t, lg))"
    by (rule Console_turn_Terminated_iff)
next
  assume "Console_event ord cmds (t, lg) = ReadFailed err \<and> err \<noteq> EOF"
  then show "Console_turn ord cmds (t, lg) =
        Running (fst (ReadLine t), lg @ [Errorf (''readline error: '' @ error_message err)])"
    by (auto simp: Console_turn_def Console_event_def klog_Errorf_def
        split: prod.splits sum.splits option.splits)
next
  assume "Console_event ord cmds (t, lg) = CommandFailed err \<and> err \<noteq> EOF"
  then show "\<exists>s. snd (ReadLine t) = Inr s \<and>
        Console_turn ord cmds (t, lg) =
          Running (fst (Handle ord cmds (fst (ReadLine t)) s),
                   lg @ [Errorf (''command error: '' @ error_message err)])"
    by (auto simp: Console_turn_def Console_event_def klog_Errorf_def
        split: prod.splits sum.splits option.splits)
next
  assume "Console_event ord cmds (t, lg) = CommandDone"
  then show "\<exists>s. snd (ReadLine t) = Inr s \<and>
        Console_turn ord cmds (t, lg) = Running (fst (Handle ord cmds (fst (ReadLine t)) s), lg)"
    by (auto simp: Console_turn_def Console_event_def
        split: prod.splits sum.splits option.splits)
next
  show "(Console_loop sched cmds i st0 = Some st') =
      (\<exists>n. Console_after sched cmds i n st0 = Terminated st')"
    by (rule Console_loop_Some_iff)
next
  show "(Console_loop sched cmds i st0 \<noteq> None) =
      (\<exists>n st. Console_after sched cmds i n st0 = Running st \<and>
         end_of_stream (Console_event (sched (i + n)) cmds st))"
    by (rule Console_loop_returns_iff)
qed

lemma demo_lines_after:
  "Console_after (\<lambda>i. [''set-x'', ''help'', ''reboot'']) demo_cmds 1 (Suc (Suc (Suc (Suc 0))))
     (session ''> '' demo_lines, []) =
   Terminated ((session ''> '' demo_lines)
       \<lparr>in_pos := 4, written := [''> '', ''> '', ''> '', ''x=5'' @ [CHR 0x0A], ''> '']\<rparr>,
     [Errorf ''command error: unknown command, type `help`'',
      Errorf ''readline error: timeout''])"
  by (simp add: Console_turn_def ReadLine_def Handle_def Fprintln_def Write_def klog_Errorf_def
        demo_lines_def demo_simps Let_def)

lemma bogus_forever:
  "in_stream t = (\<lambda>n. Inr ''bogus'') \<Longrightarrow>
     \<exists>t' lg'. Console_after sched Map.empty i n (t, lg) = Running (t', lg') \<and>
        in_stream t' = (\<lambda>n. Inr ''bogus'') \<and>
        \<not> end_of_stream (Console_event (sched (i + n)) Map.empty (t', lg'))"
proof (induction n arbitrary: i t lg)
  case 0
  then show ?case
    by (simp add: Console_event_def end_of_stream_def ReadLine_def Handle_def
        range_values_def List.map_filter_def)
next
  case (Suc n)
  let ?t1 = "fst (ReadLine t)"
  let ?lg1 = "lg @ [Errorf ''command error: unknown command, type `help`'']"
  from Suc.prems have turn: "Console_turn (sched i) Map.empty (t, lg) = Running (?t1, ?lg1)"
    by (simp add: Console_turn_def ReadLine_def Handle_def range_values_def
        List.map_filter_def klog_Errorf_def)
  from Suc.prems have "in_stream ?t1 = (\<lambda>n. Inr ''bogus'')" by (simp add: ReadLine_def)
  from Suc.IH [OF this, of "Suc i" ?lg1] turn show ?case by simp
qed

text \<open>
  On the stream of an unknown command, a read error, \<open>set 5\<close> and then the end, the
  loop logs the first two, writes the result of the third and returns at the fourth
  read. On a stream that gives an unknown command forever, the loop never returns.
\<close>

theorem Console_terminates_iff_end_of_stream_witness:
  "Console_loop (\<lambda>i. [''set-x'', ''help'', ''reboot'']) demo_cmds 1 (session ''> '' demo_lines, []) =
     Some ((session ''> '' demo_lines)
             \<lparr>in_pos := 4, written := [''> '', ''> '', ''> '', ''x=5'' @ [CHR 0x0A], ''> '']\<rparr>,
           [Errorf ''command error: unknown command, type `help`'',
            Errorf ''readline error: timeout'']) \<and>
   Console_loop (\<lambda>i. []) Map.empty 1 (session ''> '' (\<lambda>n. Inr ''bogus''), []) = None"
proof -
  let ?sched = "\<lambda>i::nat. [''set-x'', ''help'', ''reboot'']"
  let ?s0 = "(session ''> '' demo_lines, [])"
  let ?final = "((session ''> '' demo_lines)
             \<lparr>in_pos := 4, written := [''> '', ''> '', ''> '', ''x=5'' @ [CHR 0x0A], ''> '']\<rparr>,
           [Errorf ''command error: unknown command, type `help`'',
            Errorf ''readline error: timeout''])"
  let ?b0 = "(session ''> '' (\<lambda>n. Inr ''bogus''), [])"
  have ex: "\<exists>n. Console_after ?sched demo_cmds 1 n ?s0 = Terminated ?final"
    by (rule exI [of "\<lambda>n. Console_after ?sched demo_cmds 1 n ?s0 = Terminated ?final"
          "Suc (Suc (Suc (Suc 0)))", OF demo_lines_after])
  have a: "Console_loop ?sched demo_cmds 1 ?s0 = Some ?final"
    by (rule Console_terminates_iff_end_of_stream
      [of "[]" demo_cmds "session ''> '' demo_lines" "[]" EOF ?sched 1 ?s0 ?final,
        THEN conjunct2, THEN conjunct2, THEN conjunct2, THEN conjunct2, THEN conjunct1,
        THEN iffD2, OF ex])
  have never: "\<not> (\<exists>n st. Console_after (\<lambda>i. []) Map.empty 1 n ?b0 = Running st \<and>
            end_of_stream (Console_event ((\<lambda>i. []) (1 + n)) Map.empty st))"
  proof
    assume "\<exists>n st. Console_after (\<lambda>i. []) Map.empty 1 n ?b0 = Running st \<and>
            end_of_stream (Console_event ((\<lambda>i. []) (1 + n)) Map.empty st)"
    then obtain n st where r: "Console_after (\<lambda>i. []) Map.empty 1 n ?b0 = Running st"
      and e: "end_of_stream (Console_event ((\<lambda>i. []) (1 + n)) Map.empty st)" by blast
    have "in_stream (session ''> '' (\<lambda>n. Inr ''bogus'')) = (\<lambda>n. Inr ''bogus'')"
      by (simp add: session_def)
    from bogus_forever [OF this, of "\<lambda>i. []" 1 n "[]"] r e show False by auto
  qed
  have "\<not> Console_loop (\<lambda>i. []) Map.empty 1 ?b0 \<noteq> None"
    using never
    unfolding Console_terminates_iff_end_of_stream
      [of "[]" Map.empty "session ''> '' demo_lines" "[]" EOF "\<lambda>i. []" 1 ?b0 ?final,
        THEN conjunct2, THEN conjunct2, THEN conjunct2, THEN conjunct2, THEN conjunct2] .
  then have b: "Console_loop (\<lambda>i. []) Map.empty 1 ?b0 = None" by (rule notnotD)
  from a b show ?thesis by (rule conjI)
qed

subsection \<open>confirm\<close>

text \<open>
  C6 (amended). After \<open>confirm\<close>, on every path, the failed read too, the prompt is
  the console's own prompt, the red \<open>''> ''\<close> that \<open>SerialConsole\<close> sets, whatever the
  prompt was before: \<open>confirm\<close> does not keep the prompt it finds. So the prompt in
  effect before the call is in effect again exactly when it was that console prompt.
  During the call the one prompt shown is the confirmation prompt.
\<close>

theorem confirm_sets_console_prompt:
  "prompt (fst (confirm t)) = Escape_Red t @ ''> '' @ Escape_Reset t \<and>
   (prompt (fst (confirm t)) = prompt t) = (prompt t = Escape_Red t @ ''> '' @ Escape_Reset t) \<and>
   written (fst (confirm t)) = written t @ [''Are you sure? (y/n) '']"
  by (auto simp: confirm_def SetPrompt_def ReadLine_def Let_def split: sum.splits)

text \<open>
  A session whose prompt is \<open>''> ''\<close> without the colour has, after \<open>confirm\<close>, the red
  prompt.
\<close>

theorem confirm_sets_console_prompt_witness:
  "prompt (fst (confirm (session ''> '' (closed_after [Inr ''y''])))) =
     CHR 0x1B # ''[31m'' @ ''> '' @ CHR 0x1B # ''[0m'' \<and>
   written (fst (confirm (session ''> '' (closed_after [Inr ''y''])))) = [''Are you sure? (y/n) '']"
  using confirm_sets_console_prompt [of "session ''> '' (closed_after [Inr ''y''])"]
  by (simp add: session_def)

text \<open>
  The claim as stated fails for a prompt other than the console's: with the prompt
  \<open>''$ ''\<close> before the call, the prompt after it is another one, when the read
  succeeds and when it fails.
\<close>

theorem confirm_restores_prompt_counterexample:
  "prompt (fst (confirm (session ''$ '' (closed_after [Inr ''y''])))) \<noteq>
     prompt (session ''$ '' (closed_after [Inr ''y''])) \<and>
   prompt (fst (confirm (session ''$ '' (closed_after [Inl (ErrorString ''timeout'')])))) \<noteq>
     prompt (session ''$ '' (closed_after [Inl (ErrorString ''timeout'')]))"
  by (simp add: confirm_def SetPrompt_def ReadLine_def Let_def session_def closed_after_def)

text \<open>
  C7. \<open>confirm\<close> returns true exactly when the read succeeds with the line \<open>''y''\<close>.
  Every other line, the empty one too, and every read error give false; the result is
  a boolean on every path, never an error.
\<close>

theorem confirm_true_iff_y:
  "snd (confirm t) = (snd (ReadLine (SetPrompt t ''Are you sure? (y/n) '')) = Inr ''y'') \<and>
   snd (confirm t) = (in_stream t (in_pos t) = Inr ''y'')"
  by (simp add: confirm_def SetPrompt_def ReadLine_def Let_def split: sum.splits)

text \<open>
  The line \<open>''y''\<close>, then the empty line, \<open>''Y''\<close>, \<open>''yes''\<close>, a read error and a
  closed stream.
\<close>

theorem confirm_true_iff_y_witness:
  "snd (confirm (session ''> '' (closed_after [Inr ''y'']))) \<and>
   \<not> snd (confirm (session ''> '' (closed_after [Inr []]))) \<and>
   \<not> snd (confirm (session ''> '' (closed_after [Inr ''Y'']))) \<and>
   \<not> snd (confirm (session ''> '' (closed_after [Inr ''yes'']))) \<and>
   \<not> snd (confirm (session ''> '' (closed_after [Inl (ErrorString ''timeout'')]))) \<and>
   \<not> snd (confirm (session ''> '' (closed_after [])))"
  using confirm_true_iff_y [of "session ''> '' (closed_after [Inr ''y''])"]
    confirm_true_iff_y [of "session ''> '' (closed_after [Inr []])"]
    confirm_true_iff_y [of "session ''> '' (closed_after [Inr ''Y''])"]
    confirm_true_iff_y [of "session ''> '' (closed_after [Inr ''yes''])"]
    confirm_true_iff_y [of "session ''> '' (closed_after [Inl (ErrorString ''timeout'')])"]
    confirm_true_iff_y [of "session ''> '' (closed_after [])"]
  by (simp add: session_def closed_after_def ReadLine_def SetPrompt_def)

subsection \<open>Help\<close>

lemma registered_snoc: "registered (adds @ [cmd]) = Add cmd (registered adds)"
  by (simp add: registered_def)

lemma registered_latest: "registered adds = latest adds"
proof (induction adds rule: rev_induct)
  case Nil
  show ?case by (simp add: registered_def latest_def)
next
  case (snoc cmd adds)
  show ?case
  proof
    fix name
    show "registered (adds @ [cmd]) name = latest (adds @ [cmd]) name"
      using snoc by (simp add: registered_snoc Add_def latest_def)
  qed
qed

lemma latest_Some_Name: "latest adds name = Some cmd \<Longrightarrow> Name cmd = name"
  by (auto simp: latest_def find_Some_iff)

lemma dom_latest: "dom (latest adds) = Name ` set adds"
proof -
  have "(latest adds name = None) = (name \<notin> Name ` set adds)" for name
    by (auto simp: latest_def find_None_iff)
  then show ?thesis by (auto simp: dom_def)
qed

lemma sort_range_order:
  assumes "range_order ord (registered adds)"
  shows "sort ord = sort (remdups (map Name adds))"
proof -
  from assms have "distinct ord" and "set ord = Name ` set adds"
    by (simp_all add: range_order_def registered_latest dom_latest)
  then have "sorted (sort ord) \<and> distinct (sort ord) \<and>
             sorted (sort (remdups (map Name adds))) \<and> distinct (sort (remdups (map Name adds))) \<and>
             set (sort ord) = set (sort (remdups (map Name adds)))"
    by simp
  then show ?thesis by (blast intro: sorted_distinct_set_unique)
qed

lemma map_Name_latest:
  "set names \<subseteq> Name ` set adds \<Longrightarrow> map Name (List.map_filter (latest adds) names) = names"
proof (induction names)
  case Nil
  show ?case by (simp add: List.map_filter_def)
next
  case (Cons name names)
  then have "name \<in> dom (latest adds)" by (simp add: dom_latest)
  then obtain cmd where c: "latest adds name = Some cmd" by auto
  then have "Name cmd = name" by (simp add: latest_Some_Name)
  with c Cons show ?case by (simp add: List.map_filter_def)
qed

text \<open>
  C8. After any sequence of calls of \<open>Add\<close>, and whatever the order in which the map
  gives its keys, the text \<open>Help\<close> hands to the tabwriter is one row for each distinct
  registered name, the names in ascending lexicographic order, and the row of a name
  is that of the command most recently added under it. (The names of the rows are the
  sorted list of the distinct names: none is missing, none is repeated.)
\<close>

theorem Help_rows_sorted_latest:
  assumes "range_order ord (registered adds)"
  shows "Help tabwriter ord (registered adds) t =
           Escape_Cyan t @
           tabwriter (concat (map help_row
             (List.map_filter (latest adds) (sort (remdups (map Name adds)))))) @
           Escape_Reset t \<and>
         map Name (List.map_filter (latest adds) (sort (remdups (map Name adds)))) =
           sort (remdups (map Name adds)) \<and>
         sorted (sort (remdups (map Name adds))) \<and> distinct (sort (remdups (map Name adds))) \<and>
         set (sort (remdups (map Name adds))) = Name ` set adds"
proof -
  have "set (sort (remdups (map Name adds))) \<subseteq> Name ` set adds" by simp
  then have "map Name (List.map_filter (latest adds) (sort (remdups (map Name adds)))) =
           sort (remdups (map Name adds))" by (rule map_Name_latest)
  moreover have "Help tabwriter ord (registered adds) t =
           Escape_Cyan t @
           tabwriter (concat (map help_row
             (List.map_filter (latest adds) (sort (remdups (map Name adds)))))) @
           Escape_Reset t"
    using sort_range_order [OF assms] by (simp add: Help_def registered_latest)
  ultimately show ?thesis by simp
qed

text \<open>
  \<open>reboot\<close> added, then \<open>help\<close>, then \<open>reboot\<close> again with another help text: two
  rows, \<open>help\<close> first, and the row of \<open>reboot\<close> has the second text. The tabwriter is
  here the one that changes nothing.
\<close>

theorem Help_rows_sorted_latest_witness:
  "range_order [''reboot'', ''help''] (registered [cmd_reboot, cmd_help, cmd_reboot2]) \<and>
   Help (\<lambda>s. s) [''reboot'', ''help''] (registered [cmd_reboot, cmd_help, cmd_reboot2])
       (session ''> '' (closed_after [])) =
     CHR 0x1B # ''[36m'' @
     ''help'' @ [CHR 0x09, CHR 0x09] @ '' # this help'' @ [CHR 0x0A] @
     ''reboot'' @ [CHR 0x09, CHR 0x09] @ '' # restart'' @ [CHR 0x0A] @
     CHR 0x1B # ''[0m''"
  using Help_rows_sorted_latest [of "[''reboot'', ''help'']" "[cmd_reboot, cmd_help, cmd_reboot2]"
      "\<lambda>s. s" "session ''> '' (closed_after [])"]
  by (simp add: registered_def Add_def range_order_def cmd_reboot_def cmd_help_def cmd_reboot2_def
      latest_def List.map_filter_def help_row_def session_def insert_commute)

subsection \<open>msg\<close>

lemma Repeat_separator:
  "Repeat separator n = (if n < 0 then Inl (Panic ''strings: negative Repeat count'')
     else Inr (replicate (nat n) CHR ''-''))"
proof -
  have "concat (replicate k ''-'') = replicate k CHR ''-''" for k
    by (induction k) simp_all
  then show ?thesis by (simp add: Repeat_def separator_def)
qed

text \<open>
  What \<open>msg\<close> does: for a message of at most 77 bytes it logs the banner, which is 80
  bytes wide; for a longer one the count given to \<^verbatim>\<open>strings.Repeat\<close> is negative, and
  \<open>msg\<close> panics before it logs anything.
\<close>

lemma msg_cases:
  "msg m lg =
     (if length m \<le> 77 then Inr (lg @ [Info (''-- '' @ m @ replicate (77 - length m) CHR ''-'')])
      else Inl (Panic ''strings: negative Repeat count''))"
proof -
  have two: "replicate 2 CHR ''-'' = ''--''" by (simp add: numeral_2_eq_2)
  have "nat (80 - int (length (''-- '' @ m))) = 77 - length m" by simp
  then show ?thesis
    by (simp add: msg_def Repeat_separator two separatorSize_def klog_Info_def Let_def)
qed

lemma msg_banner_width:
  "length m \<le> 77 \<Longrightarrow> msg m lg = Inr (lg @ [Info s]) \<Longrightarrow> length s = 80"
  by (auto simp: msg_cases)

text \<open>
  C9. The claim is that \<open>msg\<close> gives a banner of width 80 for a message of any length.
  The code does not: on a message of 78 bytes \<open>msg\<close> panics.
\<close>

theorem msg_panics_on_long_message:
  "msg (replicate 78 CHR ''a'') lg = Inl (Panic ''strings: negative Repeat count'')"
  by (simp add: msg_cases)

end
